theory Spec2Isabelle
  imports Complex_Main
begin

section \<open>Numbers and values\<close>

text \<open>
  The signal generator is JavaScript. A finite JavaScript number is modelled by the rational
  it denotes (\<^typ>\<open>rat\<close>), with exact arithmetic: rounding of doubles is outside the model.
  A field that holds either a finite number or \<open>null\<close> is a \<^typ>\<open>rat option\<close>, with
  \<^term>\<open>None\<close> for \<open>null\<close>.

  Where the code itself can make a value that is not a finite number (reading an array
  past its end gives \<open>undefined\<close>, and arithmetic on \<open>undefined\<close> gives \<open>NaN\<close>), the
  model has these values too: \<open>jsval\<close> for what an array cell or an array read can hold,
  \<open>jsnum\<close> for the result of arithmetic on such values. The arrays of this program come
  from JSON responses whose cells are numbers; a cell of the model is a number, \<open>null\<close> or
  \<open>undefined\<close>.
\<close>

datatype jsval = Undefined | Null | Num rat

datatype jsnum = NaN | Fin rat

text \<open>\<open>Number(x)\<close>, and the implicit ToNumber of an arithmetic operand.\<close>

fun Number :: "jsval \<Rightarrow> jsnum" where
  "Number Undefined = NaN"
| "Number Null = Fin 0"
| "Number (Num r) = Fin r"

text \<open>
  \<open>toNumber\<close> of the API clients:
  \<^verbatim>\<open>const n = Number(x); return Number.isFinite(n) ? n : null;\<close>
  \<open>Number.isFinite(n)\<close> holds exactly when \<open>n\<close> is a \<^term>\<open>Fin r\<close>.
\<close>

definition toNumber :: "jsval \<Rightarrow> rat option" where
  "toNumber x = (let n = Number x in case n of Fin r \<Rightarrow> Some r | NaN \<Rightarrow> None)"

text \<open>Arithmetic and comparison on numbers that may be \<open>NaN\<close>.\<close>

fun js_add :: "jsnum \<Rightarrow> jsnum \<Rightarrow> jsnum" where
  "js_add (Fin a) (Fin b) = Fin (a + b)"
| "js_add _ _ = NaN"

fun js_sub :: "jsnum \<Rightarrow> jsnum \<Rightarrow> jsnum" where
  "js_sub (Fin a) (Fin b) = Fin (a - b)"
| "js_sub _ _ = NaN"

fun js_mul :: "jsnum \<Rightarrow> jsnum \<Rightarrow> jsnum" where
  "js_mul (Fin a) (Fin b) = Fin (a * b)"
| "js_mul _ _ = NaN"

fun js_lt :: "jsnum \<Rightarrow> jsnum \<Rightarrow> bool" where
  "js_lt (Fin a) (Fin b) = (a < b)"
| "js_lt _ _ = False"

fun js_gt :: "jsnum \<Rightarrow> jsnum \<Rightarrow> bool" where
  "js_gt (Fin a) (Fin b) = (a > b)"
| "js_gt _ _ = False"

fun js_le :: "jsnum \<Rightarrow> jsnum \<Rightarrow> bool" where
  "js_le (Fin a) (Fin b) = (a \<le> b)"
| "js_le _ _ = False"

text \<open>
  An array read \<open>xs[i]\<close>: the cell when \<open>i\<close> is an index of the array, \<open>undefined\<close>
  otherwise. JavaScript does not throw on a read past the end.
\<close>

definition in_bounds :: "'a list \<Rightarrow> int \<Rightarrow> bool" where
  "in_bounds xs i = (0 \<le> i \<and> i < int (length xs))"

definition cell :: "jsval list \<Rightarrow> int \<Rightarrow> jsval" where
  "cell xs i = (if in_bounds xs i then xs ! nat i else Undefined)"

subsection \<open>Printing a number inside a template literal\<close>

text \<open>
  \<open>`${x}`\<close> prints the number \<open>x\<close>. For a decimal with few digits (every numeric literal
  of the decision gate is one) JavaScript prints the decimal itself: an optional sign, the
  integer part, and after a point the fractional digits up to the last non-zero one.
  \<open>numberToString\<close> prints a rational this way, giving up after 20 fractional digits.
\<close>

definition digitChar :: "nat \<Rightarrow> char" where
  "digitChar d = ''0123456789'' ! d"

function natToString :: "nat \<Rightarrow> string" where
  "natToString n = (if n < 10 then [digitChar n] else natToString (n div 10) @ [digitChar (n mod 10)])"
  by pat_completeness auto
termination
  by (relation "measure (\<lambda>n. n)") auto

fun fracDigits :: "nat \<Rightarrow> rat \<Rightarrow> string" where
  "fracDigits 0 r = []"
| "fracDigits (Suc k) r =
     (if r = 0 then []
      else (let d = nat \<lfloor>r * 10\<rfloor> in digitChar d # fracDigits k (r * 10 - of_nat d)))"

definition numberToString :: "rat \<Rightarrow> string" where
  "numberToString x =
     (let a = \<bar>x\<bar>; whole = nat \<lfloor>a\<rfloor>; rest = a - of_nat whole
      in (if x < 0 then ''-'' else []) @ natToString whole @
         (if rest = 0 then [] else ''.'' @ fracDigits 20 rest))"

section \<open>Edge calculator and decision gate (\<open>src/engines/edge-kalshi.js\<close>)\<close>

text \<open>
  Modelled from the spec: \<open>clamp\<close> is imported from \<open>utils.js\<close>, which is not among the
  sources. The spec says of its use that the quotes "are clamped to \<open>[0,1]\<close>"; the call is
  \<open>clamp(x, 0, 1)\<close>, so the arguments are the value, the lower and the upper bound.
\<close>

definition clamp :: "rat \<Rightarrow> rat \<Rightarrow> rat \<Rightarrow> rat" where
  "clamp x lo hi = max lo (min hi x)"

text \<open>
  Both functions take one object and return one object; each object is a record with the
  fields of the source. The model probabilities given to \<open>computeEdge\<close> are numbers, the
  market quotes are numbers or \<open>null\<close>.
\<close>

record computeEdge_args =
  modelUp :: rat
  modelDown :: rat
  marketYes :: "rat option"
  marketNo :: "rat option"

record edge_result =
  marketUp :: "rat option"
  marketDown :: "rat option"
  edgeUp :: "rat option"
  edgeDown :: "rat option"

definition computeEdge :: "computeEdge_args \<Rightarrow> edge_result" where
  "computeEdge a =
     (case (marketYes a, marketNo a) of
        (Some mYes, Some mNo) \<Rightarrow>
          (let marketUp' = mYes;
               marketDown' = mNo;
               edgeUp' = computeEdge_args.modelUp a - marketUp';
               edgeDown' = computeEdge_args.modelDown a - marketDown'
           in \<lparr> marketUp = Some (clamp marketUp' 0 1),
                marketDown = Some (clamp marketDown' 0 1),
                edgeUp = Some edgeUp',
                edgeDown = Some edgeDown' \<rparr>)
      | _ \<Rightarrow> \<lparr> marketUp = None, marketDown = None, edgeUp = None, edgeDown = None \<rparr>)"

datatype phase = EARLY | MID | LATE

datatype action = ENTER | NO_TRADE

datatype side = UP | DOWN

datatype strength = STRONG | GOOD | OPTIONAL

text \<open>
  The argument of \<open>decide\<close>: \<open>modelUp\<close> and \<open>modelDown\<close> default to \<open>null\<close>. The
  Decision it returns has the fields \<open>reason\<close>, \<open>strength\<close> and \<open>edge\<close> only on some
  paths; a field that the returned object does not have is \<^term>\<open>None\<close>, as is a field
  that is \<open>null\<close>.
\<close>

record decide_args =
  remainingMinutes :: rat
  edgeUp :: "rat option"
  edgeDown :: "rat option"
  modelUp :: "rat option"
  modelDown :: "rat option"

record decision =
  action :: action
  side :: "side option"
  phase :: phase
  reason :: "string option"
  strength :: "strength option"
  edge :: "rat option"
  edgeUp :: "rat option"
  edgeDown :: "rat option"

text \<open>The local constants of \<open>decide\<close>, in the order of the source.\<close>

definition phaseOf :: "rat \<Rightarrow> phase" where
  "phaseOf remaining = (if remaining > 40 then EARLY else if remaining > 20 then MID else LATE)"

definition threshold :: "phase \<Rightarrow> rat" where
  "threshold p = (if p = EARLY then 0.05 else if p = MID then 0.1 else 0.2)"

definition minProb :: "phase \<Rightarrow> rat" where
  "minProb p = (if p = EARLY then 0.55 else if p = MID then 0.6 else 0.65)"

definition bestSide :: "rat \<Rightarrow> rat \<Rightarrow> side" where
  "bestSide eUp eDown = (if eUp > eDown then UP else DOWN)"

definition bestEdge :: "rat \<Rightarrow> rat \<Rightarrow> rat" where
  "bestEdge eUp eDown = (if bestSide eUp eDown = UP then eUp else eDown)"

definition bestModel :: "decide_args \<Rightarrow> rat \<Rightarrow> rat \<Rightarrow> rat option" where
  "bestModel a eUp eDown =
     (if bestSide eUp eDown = UP then decide_args.modelUp a else decide_args.modelDown a)"

definition strengthOf :: "rat \<Rightarrow> strength" where
  "strengthOf e = (if e \<ge> 0.2 then STRONG else if e \<ge> 0.1 then GOOD else OPTIONAL)"

definition decide :: "decide_args \<Rightarrow> decision" where
  "decide a =
     (let ph = phaseOf (remainingMinutes a) in
      case (decide_args.edgeUp a, decide_args.edgeDown a) of
        (Some eUp, Some eDown) \<Rightarrow>
          if bestEdge eUp eDown < threshold ph then
            \<lparr> action = NO_TRADE, side = None, phase = ph,
              reason = Some (''edge_below_'' @ numberToString (threshold ph)),
              strength = None, edge = None, edgeUp = Some eUp, edgeDown = Some eDown \<rparr>
          else if (case bestModel a eUp eDown of None \<Rightarrow> False | Some m \<Rightarrow> m < minProb ph) then
            \<lparr> action = NO_TRADE, side = None, phase = ph,
              reason = Some (''prob_below_'' @ numberToString (minProb ph)),
              strength = None, edge = None, edgeUp = Some eUp, edgeDown = Some eDown \<rparr>
          else
            \<lparr> action = ENTER, side = Some (bestSide eUp eDown), phase = ph,
              reason = None,
              strength = Some (strengthOf (bestEdge eUp eDown)),
              edge = Some (bestEdge eUp eDown), edgeUp = Some eUp, edgeDown = Some eDown \<rparr>
      | _ \<Rightarrow>
          \<lparr> action = NO_TRADE, side = None, phase = ph,
            reason = Some ''missing_market_data'',
            strength = None, edge = None, edgeUp = None, edgeDown = None \<rparr>)"

section \<open>Order book summary (Kalshi client)\<close>

text \<open>
  The order book of the API has two sides, \<open>yes\<close> and \<open>no\<close>; each is an array of
  \<open>[price, size]\<close> entries or is missing. An entry is an array of cells; a side that is not
  an array (\<open>Array.isArray\<close> fails) is \<^term>\<open>None\<close>, and so is a book that is \<open>null\<close> or
  \<open>undefined\<close> (\<open>book?.yes\<close>).
\<close>

type_synonym entry = "jsval list"

record orderbook =
  yes :: "entry list option"
  no :: "entry list option"

record side_summary =
  bestBid :: "rat option"
  bestAsk :: "rat option"
  spread :: "rat option"
  bidLiquidity :: rat
  askLiquidity :: rat

record book_summary =
  yes :: side_summary
  no :: side_summary

text \<open>\<open>xs.slice(0, end)\<close>: a negative \<open>end\<close> counts from the end of the array.\<close>

definition slice0 :: "'a list \<Rightarrow> int \<Rightarrow> 'a list" where
  "slice0 xs e =
     (let len = int (length xs);
          final = (if e < 0 then max (len + e) 0 else min e len)
      in take (nat final) xs)"

text \<open>\<open>Array.isArray(v) ? v : []\<close>\<close>

definition arrayOrEmpty :: "entry list option \<Rightarrow> entry list" where
  "arrayOrEmpty v = (case v of Some xs \<Rightarrow> xs | None \<Rightarrow> [])"

definition spreadOf :: "rat option \<Rightarrow> rat option \<Rightarrow> rat option" where
  "spreadOf bid ask = (case (bid, ask) of (Some b, Some a) \<Rightarrow> Some (a - b) | _ \<Rightarrow> None)"

text \<open>\<open>bids.slice(0, depthLevels).reduce((acc, x) => acc + (toNumber(x[1]) ?? 0), 0)\<close>\<close>

definition liquidity :: "entry list \<Rightarrow> int \<Rightarrow> rat" where
  "liquidity bids depthLevels =
     foldl (\<lambda>acc x. acc + (case toNumber (cell x 1) of Some v \<Rightarrow> v | None \<Rightarrow> 0)) 0
       (slice0 bids depthLevels)"

text \<open>\<open>depthLevels\<close> defaults to 5 when the caller leaves it out (\<^term>\<open>None\<close>).\<close>

definition summarizeOrderBook :: "orderbook option \<Rightarrow> int option \<Rightarrow> book_summary" where
  "summarizeOrderBook book depthLevels =
     (let depth = (case depthLevels of None \<Rightarrow> 5 | Some d \<Rightarrow> d);
          yesBids = arrayOrEmpty (case book of None \<Rightarrow> None | Some b \<Rightarrow> orderbook.yes b);
          noBids = arrayOrEmpty (case book of None \<Rightarrow> None | Some b \<Rightarrow> orderbook.no b);
          bestYesBid = (if length yesBids > 0 then toNumber (cell (yesBids ! 0) 0) else None);
          bestNoBid = (if length noBids > 0 then toNumber (cell (noBids ! 0) 0) else None);
          bestYesAsk = (if length yesBids > 1 then toNumber (cell (yesBids ! 1) 0) else None);
          bestNoAsk = (if length noBids > 1 then toNumber (cell (noBids ! 1) 0) else None);
          yesSpread = spreadOf bestYesBid bestYesAsk;
          noSpread = spreadOf bestNoBid bestNoAsk;
          yesLiquidity = liquidity yesBids depth;
          noLiquidity = liquidity noBids depth
      in \<lparr> book_summary.yes =
             \<lparr> bestBid = bestYesBid, bestAsk = bestYesAsk, spread = yesSpread,
               bidLiquidity = yesLiquidity, askLiquidity = yesLiquidity \<rparr>,
           book_summary.no =
             \<lparr> bestBid = bestNoBid, bestAsk = bestNoAsk, spread = noSpread,
               bidLiquidity = noLiquidity, askLiquidity = noLiquidity \<rparr> \<rparr>)"

section \<open>VWAP crossings (\<open>src/index-kalshi.js\<close>)\<close>

text \<open>
  \<open>countVwapCrosses(closes, vwapSeries, lookback)\<close>. The closes are what \<open>toNumber\<close> gave
  (a number or \<open>null\<close>); a subtraction converts its operands with ToNumber, so a cell read
  past the end of an array makes the difference \<open>NaN\<close>, and every comparison with \<open>NaN\<close>
  is false.

  To speak about the indices the loop reads, the loop of the model also keeps the list of
  its reads, in the order the source makes them: \<open>closes[i - 1]\<close>, \<open>vwapSeries[i - 1]\<close>,
  \<open>closes[i]\<close>, \<open>vwapSeries[i]\<close>.
\<close>

datatype series = Closes | VwapSeries

type_synonym array_read = "series \<times> int"

function crossLoop ::
  "jsval list \<Rightarrow> jsval list \<Rightarrow> int \<Rightarrow> nat \<Rightarrow> array_read list \<Rightarrow> nat \<times> array_read list" where
  "crossLoop closes vwapSeries i crosses reads =
     (if i < int (length closes) then
        (let prev = js_sub (Number (cell closes (i - 1))) (Number (cell vwapSeries (i - 1)));
             cur = js_sub (Number (cell closes i)) (Number (cell vwapSeries i));
             reads' = reads @ [(Closes, i - 1), (VwapSeries, i - 1), (Closes, i), (VwapSeries, i)]
         in if prev = Fin 0 then crossLoop closes vwapSeries (i + 1) crosses reads'
            else if (js_gt prev (Fin 0) \<and> js_lt cur (Fin 0)) \<or> (js_lt prev (Fin 0) \<and> js_gt cur (Fin 0))
                 then crossLoop closes vwapSeries (i + 1) (crosses + 1) reads'
                 else crossLoop closes vwapSeries (i + 1) crosses reads')
      else (crosses, reads))"
  by pat_completeness auto
termination
  by (relation "measure (\<lambda>(closes, vwapSeries, i, crosses, reads). nat (int (length closes) - i))") auto

declare crossLoop.simps [simp del]

text \<open>
  One pass of the loop body, for the proofs: what it adds to \<open>crosses\<close> and the reads it
  makes.
\<close>

definition crossStep :: "jsval list \<Rightarrow> jsval list \<Rightarrow> int \<Rightarrow> nat" where
  "crossStep closes vwapSeries i =
     (let prev = js_sub (Number (cell closes (i - 1))) (Number (cell vwapSeries (i - 1)));
          cur = js_sub (Number (cell closes i)) (Number (cell vwapSeries i))
      in if prev = Fin 0 then 0
         else if (js_gt prev (Fin 0) \<and> js_lt cur (Fin 0)) \<or> (js_lt prev (Fin 0) \<and> js_gt cur (Fin 0))
              then 1 else 0)"

definition readsAt :: "int \<Rightarrow> array_read list" where
  "readsAt i = [(Closes, i - 1), (VwapSeries, i - 1), (Closes, i), (VwapSeries, i)]"

definition countVwapCrosses_traced ::
  "jsval list \<Rightarrow> jsval list \<Rightarrow> int \<Rightarrow> (nat \<times> array_read list) option" where
  "countVwapCrosses_traced closes vwapSeries lookback =
     (if int (length closes) < lookback \<or> int (length vwapSeries) < lookback then None
      else Some (crossLoop closes vwapSeries (int (length closes) - lookback + 1) 0 []))"

text \<open>What the function returns: \<open>null\<close> or the count.\<close>

definition countVwapCrosses :: "jsval list \<Rightarrow> jsval list \<Rightarrow> int \<Rightarrow> nat option" where
  "countVwapCrosses closes vwapSeries lookback =
     map_option fst (countVwapCrosses_traced closes vwapSeries lookback)"

text \<open>A read is within bounds when its index is an index of the array it reads.\<close>

definition read_in_bounds :: "jsval list \<Rightarrow> jsval list \<Rightarrow> array_read \<Rightarrow> bool" where
  "read_in_bounds closes vwapSeries r =
     (case r of (Closes, i) \<Rightarrow> in_bounds closes i | (VwapSeries, i) \<Rightarrow> in_bounds vwapSeries i)"

section \<open>Candles from Coinbase (Coinbase client)\<close>

text \<open>
  \<open>fetchKlines\<close> requests candles and transforms the response. The \<open>limit\<close> argument and
  the clock only shape the request (the time range of its URL) and do not enter the
  result; the model takes the response as an argument in their place. A response
  is its \<open>ok\<close> flag, its status, its body as text and its body as parsed rows, each row an
  array of cells \<open>[timestamp, low, high, open, close, volume]\<close>. The field \<open>open\<close>
  of a candle is \<open>open'\<close> here, \<open>open\<close> being a constant of the library.
\<close>

record response =
  ok :: bool
  status :: nat
  bodyText :: string
  bodyRows :: "jsval list list"

record candle =
  openTime :: jsnum
  open' :: "rat option"
  high :: "rat option"
  low :: "rat option"
  close :: "rat option"
  volume :: "rat option"
  closeTime :: jsnum

datatype fetch_error = CoinbaseCandlesError string

definition granularityMap :: "string \<Rightarrow> rat option" where
  "granularityMap = map_of
     [(''1m'', 60), (''3m'', 180), (''5m'', 300), (''15m'', 900), (''1h'', 3600), (''1d'', 86400)]"

definition validGranularities :: "rat list" where
  "validGranularities = [60, 300, 900, 3600, 21600, 86400]"

text \<open>
  \<open>granularityMap[interval] || 60\<close>, then the default of one minute when the value is not
  one that Coinbase supports.
\<close>

definition granularityOf :: "string \<Rightarrow> rat" where
  "granularityOf interval =
     (let granularity = (case granularityMap interval of
                           Some g \<Rightarrow> (if g = 0 then 60 else g) | None \<Rightarrow> 60)
      in if granularity \<in> set validGranularities then granularity else 60)"

definition candleOf :: "rat \<Rightarrow> jsval list \<Rightarrow> candle" where
  "candleOf granularity row =
     \<lparr> openTime = js_mul (Number (cell row 0)) (Fin 1000),
       open' = toNumber (cell row 3),
       high = toNumber (cell row 2),
       low = toNumber (cell row 1),
       close = toNumber (cell row 4),
       volume = toNumber (cell row 5),
       closeTime = js_mul (js_add (Number (cell row 0)) (Fin granularity)) (Fin 1000) \<rparr>"

definition fetchKlines :: "string \<Rightarrow> response \<Rightarrow> fetch_error + candle list" where
  "fetchKlines interval res =
     (let granularity = granularityOf interval in
      if \<not> ok res then
        Inl (CoinbaseCandlesError
               (''Coinbase candles error: '' @ natToString (status res) @ '' '' @ bodyText res))
      else Inr (rev (map (candleOf granularity) (bodyRows res))))"

section \<open>Properties of the edge calculator and the decision gate\<close>

lemmas gate_defs =
  phaseOf_def threshold_def minProb_def bestSide_def bestEdge_def bestModel_def strengthOf_def

lemma threshold_strings:
  "numberToString (threshold EARLY) = ''0.05''"
  "numberToString (threshold MID) = ''0.1''"
  "numberToString (threshold LATE) = ''0.2''"
  by code_simp+

lemma minProb_strings:
  "numberToString (minProb EARLY) = ''0.55''"
  "numberToString (minProb MID) = ''0.6''"
  "numberToString (minProb LATE) = ''0.65''"
  by code_simp+

lemma decide_phase_eq: "phase (decide a) = phaseOf (remainingMinutes a)"
  by (simp add: decide_def Let_def split: option.split)

text \<open>
  Claim C1, as the code has it. \<open>computeEdge\<close> returns the all-\<open>null\<close> object exactly when
  \<open>marketYes\<close> or \<open>marketNo\<close> is \<open>null\<close>. When both are numbers \<open>y\<close> and \<open>n\<close>, the returned
  \<open>marketUp\<close> and \<open>marketDown\<close> are \<open>y\<close> and \<open>n\<close> clamped to \<open>[0,1]\<close>, while the edges are
  taken from the quotes before clamping: \<open>edgeUp = modelUp - y\<close> and
  \<open>edgeDown = modelDown - n\<close>. So \<open>edgeUp = modelUp - marketUp\<close> holds for the returned
  \<open>marketUp\<close> when \<open>y\<close> lies in \<open>[0,1]\<close>, and likewise on the down side.
\<close>

theorem computeEdge_contract:
  "(computeEdge a = \<lparr> marketUp = None, marketDown = None, edgeUp = None, edgeDown = None \<rparr>
      \<longleftrightarrow> (marketYes a = None \<or> marketNo a = None)) \<and>
   (marketYes a = Some y \<and> marketNo a = Some n \<longrightarrow>
      marketUp (computeEdge a) = Some (if y < 0 then 0 else if y > 1 then 1 else y) \<and>
      marketDown (computeEdge a) = Some (if n < 0 then 0 else if n > 1 then 1 else n) \<and>
      edge_result.edgeUp (computeEdge a) = Some (computeEdge_args.modelUp a - y) \<and>
      edge_result.edgeDown (computeEdge a) = Some (computeEdge_args.modelDown a - n) \<and>
      (0 \<le> y \<and> y \<le> 1 \<longrightarrow>
         marketUp (computeEdge a) = Some y \<and>
         edge_result.edgeUp (computeEdge a) = Some (computeEdge_args.modelUp a - y)) \<and>
      (0 \<le> n \<and> n \<le> 1 \<longrightarrow>
         marketDown (computeEdge a) = Some n \<and>
         edge_result.edgeDown (computeEdge a) = Some (computeEdge_args.modelDown a - n)))"
  by (auto simp: computeEdge_def clamp_def Let_def split: option.splits)

text \<open>The contract at model 0.68/0.32 against quotes 0.50/0.46.\<close>

theorem computeEdge_contract_witness:
  "marketUp (computeEdge \<lparr> computeEdge_args.modelUp = 0.68, modelDown = 0.32,
      marketYes = Some 0.5, marketNo = Some 0.46 \<rparr>) = Some 0.5 \<and>
   edge_result.edgeUp (computeEdge \<lparr> computeEdge_args.modelUp = 0.68, modelDown = 0.32,
      marketYes = Some 0.5, marketNo = Some 0.46 \<rparr>) = Some 0.18 \<and>
   edge_result.edgeDown (computeEdge \<lparr> computeEdge_args.modelUp = 0.68, modelDown = 0.32,
      marketYes = Some 0.5, marketNo = Some 0.46 \<rparr>) = Some (- 0.14)"
  using computeEdge_contract [of "\<lparr> computeEdge_args.modelUp = 0.68, modelDown = 0.32,
      marketYes = Some 0.5, marketNo = Some 0.46 \<rparr>" "0.5" "0.46"]
  by simp

text \<open>
  Claim C1 as stated fails for a quote outside \<open>[0,1]\<close>: with \<open>modelUp = 0.5\<close> and
  \<open>marketYes = 2\<close> the returned \<open>marketUp\<close> is 1 and the returned \<open>edgeUp\<close> is \<open>-1.5\<close>, not
  \<open>modelUp - marketUp = 0.5 - 1\<close>.
\<close>

theorem computeEdge_clamped_quote_counterexample:
  "marketUp (computeEdge \<lparr> computeEdge_args.modelUp = 0.5, modelDown = 0.5,
      marketYes = Some 2, marketNo = Some 0.5 \<rparr>) = Some 1 \<and>
   edge_result.edgeUp (computeEdge \<lparr> computeEdge_args.modelUp = 0.5, modelDown = 0.5,
      marketYes = Some 2, marketNo = Some 0.5 \<rparr>) = Some (- 1.5) \<and>
   edge_result.edgeUp (computeEdge \<lparr> computeEdge_args.modelUp = 0.5, modelDown = 0.5,
      marketYes = Some 2, marketNo = Some 0.5 \<rparr>) \<noteq> Some (0.5 - 1)"
  by (simp add: computeEdge_def clamp_def)

text \<open>
  Claim C2. With both edges non-null the gate takes \<open>UP\<close> as the best side when
  \<open>edgeUp > edgeDown\<close> and \<open>DOWN\<close> otherwise, so a tie goes to \<open>DOWN\<close>. If the edge of the
  best side is below the threshold of the phase (EARLY 0.05, MID 0.10, LATE 0.20) the
  result is \<open>NO_TRADE\<close> and its reason is \<open>edge_below_\<close> followed by that threshold;
  otherwise, if the model probability of the best side is non-null and below the floor
  of the phase (EARLY 0.55, MID 0.60, LATE 0.65), the result is \<open>NO_TRADE\<close> and its reason
  is \<open>prob_below_\<close> followed by that floor; otherwise the result is \<open>ENTER\<close> on the best
  side.
\<close>

theorem decide_gate:
  assumes "decide_args.edgeUp a = Some eUp" and "decide_args.edgeDown a = Some eDown"
    and "bs = (if eUp > eDown then UP else DOWN)"
    and "be = (if eUp > eDown then eUp else eDown)"
    and "bm = (if eUp > eDown then decide_args.modelUp a else decide_args.modelDown a)"
    and "thr = (case phase (decide a) of EARLY \<Rightarrow> 0.05 | MID \<Rightarrow> 0.10 | LATE \<Rightarrow> 0.20)"
    and "flo = (case phase (decide a) of EARLY \<Rightarrow> 0.55 | MID \<Rightarrow> 0.60 | LATE \<Rightarrow> 0.65)"
  shows "if be < thr then
           action (decide a) = NO_TRADE \<and>
           reason (decide a) = Some (case phase (decide a) of
              EARLY \<Rightarrow> ''edge_below_0.05'' | MID \<Rightarrow> ''edge_below_0.1'' | LATE \<Rightarrow> ''edge_below_0.2'')
         else if (\<exists>m. bm = Some m \<and> m < flo) then
           action (decide a) = NO_TRADE \<and>
           reason (decide a) = Some (case phase (decide a) of
              EARLY \<Rightarrow> ''prob_below_0.55'' | MID \<Rightarrow> ''prob_below_0.6'' | LATE \<Rightarrow> ''prob_below_0.65'')
         else action (decide a) = ENTER \<and> side (decide a) = Some bs"
proof -
  let ?p = "phaseOf (remainingMinutes a)"
  have ph: "phase (decide a) = ?p" by (rule decide_phase_eq)
  have thr: "thr = threshold ?p"
    using assms(6) unfolding ph by (cases ?p) (simp_all add: threshold_def)
  have flo: "flo = minProb ?p"
    using assms(7) unfolding ph by (cases ?p) (simp_all add: minProb_def)
  have be: "be = bestEdge eUp eDown" using assms(4) by (simp add: bestEdge_def bestSide_def)
  have bs: "bs = bestSide eUp eDown" using assms(3) by (simp add: bestSide_def)
  have bm: "bm = bestModel a eUp eDown" using assms(5) by (simp add: bestModel_def bestSide_def)
  have s1: "''edge_below_'' @ numberToString (threshold ?p) = (case ?p of
              EARLY \<Rightarrow> ''edge_below_0.05'' | MID \<Rightarrow> ''edge_below_0.1'' | LATE \<Rightarrow> ''edge_below_0.2'')"
    by (cases ?p) (simp_all add: threshold_strings)
  have s2: "''prob_below_'' @ numberToString (minProb ?p) = (case ?p of
              EARLY \<Rightarrow> ''prob_below_0.55'' | MID \<Rightarrow> ''prob_below_0.6'' | LATE \<Rightarrow> ''prob_below_0.65'')"
    by (cases ?p) (simp_all add: minProb_strings)
  show ?thesis
    unfolding ph thr flo be bs bm
    using assms(1,2) s1 s2
    by (cases "bestModel a eUp eDown") (simp_all add: decide_def Let_def)
qed

text \<open>
  The gate ten minutes before the close, with edges 0.18 and 0.02: the best edge misses
  the LATE threshold.
\<close>

theorem decide_gate_witness:
  "action (decide \<lparr> remainingMinutes = 10, edgeUp = Some 0.18, edgeDown = Some 0.02,
      modelUp = Some 0.62, modelDown = None \<rparr>) = NO_TRADE \<and>
   reason (decide \<lparr> remainingMinutes = 10, edgeUp = Some 0.18, edgeDown = Some 0.02,
      modelUp = Some 0.62, modelDown = None \<rparr>) = Some ''edge_below_0.2''"
proof -
  let ?a = "\<lparr> remainingMinutes = 10, edgeUp = Some 0.18, edgeDown = Some 0.02,
      modelUp = Some 0.62, modelDown = None \<rparr>"
  have "if (0.18::rat) < 0.2 then
          action (decide ?a) = NO_TRADE \<and>
          reason (decide ?a) = Some (case phase (decide ?a) of
             EARLY \<Rightarrow> ''edge_below_0.05'' | MID \<Rightarrow> ''edge_below_0.1'' | LATE \<Rightarrow> ''edge_below_0.2'')
        else if (\<exists>m. Some (0.62::rat) = Some m \<and> m < 0.65) then
          action (decide ?a) = NO_TRADE \<and>
          reason (decide ?a) = Some (case phase (decide ?a) of
             EARLY \<Rightarrow> ''prob_below_0.55'' | MID \<Rightarrow> ''prob_below_0.6'' | LATE \<Rightarrow> ''prob_below_0.65'')
        else action (decide ?a) = ENTER \<and> side (decide ?a) = Some UP"
    by (rule decide_gate [of ?a "0.18" "0.02" UP "0.18" "Some 0.62" "0.2" "0.65"])
       (simp_all add: decide_def phaseOf_def)
  then show ?thesis by (simp add: decide_def phaseOf_def)
qed

text \<open>
  Claim C3. The phase is \<open>EARLY\<close> exactly when \<open>remainingMinutes > 40\<close>, \<open>MID\<close> exactly when
  \<open>20 < remainingMinutes \<le> 40\<close> and \<open>LATE\<close> exactly when \<open>remainingMinutes \<le> 20\<close>; at 40 it is
  \<open>MID\<close> and at 20 it is \<open>LATE\<close>.
\<close>

theorem decide_phase:
  "(phase (decide a) = EARLY \<longleftrightarrow> remainingMinutes a > 40) \<and>
   (phase (decide a) = MID \<longleftrightarrow> 20 < remainingMinutes a \<and> remainingMinutes a \<le> 40) \<and>
   (phase (decide a) = LATE \<longleftrightarrow> remainingMinutes a \<le> 20) \<and>
   (remainingMinutes a = 40 \<longrightarrow> phase (decide a) = MID) \<and>
   (remainingMinutes a = 20 \<longrightarrow> phase (decide a) = LATE)"
  unfolding decide_phase_eq by (auto simp: phaseOf_def)

text \<open>The two boundaries.\<close>

theorem decide_phase_witness:
  "phase (decide \<lparr> remainingMinutes = 40, edgeUp = Some 0.3, edgeDown = None,
      modelUp = None, modelDown = None \<rparr>) = MID \<and>
   phase (decide \<lparr> remainingMinutes = 20, edgeUp = Some 0.3, edgeDown = Some 0.1,
      modelUp = None, modelDown = None \<rparr>) = LATE"
  using decide_phase [of "\<lparr> remainingMinutes = 40, edgeUp = Some 0.3, edgeDown = None,
      modelUp = None, modelDown = None \<rparr>"]
    decide_phase [of "\<lparr> remainingMinutes = 20, edgeUp = Some 0.3, edgeDown = Some 0.1,
      modelUp = None, modelDown = None \<rparr>"]
  by simp

text \<open>
  Claim C4. When \<open>edgeUp\<close> or \<open>edgeDown\<close> is \<open>null\<close>, \<open>decide\<close> returns the Decision with
  action \<open>NO_TRADE\<close>, side \<open>null\<close>, the phase of \<open>remainingMinutes\<close>, the reason
  \<open>missing_market_data\<close> and both edges \<open>null\<close>. The function has no failing path: it is
  total, and this is its value.
\<close>

theorem decide_missing_market_data:
  assumes "decide_args.edgeUp a = None \<or> decide_args.edgeDown a = None"
  shows "decide a = \<lparr> action = NO_TRADE, side = None,
           phase = (if remainingMinutes a > 40 then EARLY
                    else if remainingMinutes a > 20 then MID else LATE),
           reason = Some ''missing_market_data'', strength = None, edge = None,
           edgeUp = None, edgeDown = None \<rparr>"
  using assms by (auto simp: decide_def phaseOf_def Let_def split: option.splits)

text \<open>A missing down edge, 25 minutes before the close.\<close>

theorem decide_missing_market_data_witness:
  "decide \<lparr> remainingMinutes = 25, edgeUp = Some 0.3, edgeDown = None,
      modelUp = Some 0.7, modelDown = Some 0.3 \<rparr>
     = \<lparr> action = NO_TRADE, side = None, phase = MID, reason = Some ''missing_market_data'',
         strength = None, edge = None, edgeUp = None, edgeDown = None \<rparr>"
  using decide_missing_market_data [of "\<lparr> remainingMinutes = 25, edgeUp = Some 0.3,
      edgeDown = None, modelUp = Some 0.7, modelDown = Some 0.3 \<rparr>"]
  by simp

text \<open>
  Claim C5. An \<open>ENTER\<close> decision has strength \<open>STRONG\<close> when the edge of the best side is at
  least 0.20, \<open>GOOD\<close> when it is at least 0.10 and \<open>OPTIONAL\<close> otherwise, and its side is the
  best side. (An \<open>ENTER\<close> decision comes only from non-null edges; \<open>eUp\<close> and \<open>eDown\<close> name
  them.)
\<close>

theorem decide_enter_strength:
  assumes "action (decide a) = ENTER"
    and "decide_args.edgeUp a = Some eUp" and "decide_args.edgeDown a = Some eDown"
    and "be = (if eUp > eDown then eUp else eDown)"
  shows "strength (decide a) =
           Some (if be \<ge> 0.20 then STRONG else if be \<ge> 0.10 then GOOD else OPTIONAL) \<and>
         side (decide a) = Some (if eUp > eDown then UP else DOWN)"
proof -
  let ?ph = "phaseOf (remainingMinutes a)"
  have n1: "\<not> bestEdge eUp eDown < threshold ?ph"
    using assms(1-3) by (simp add: decide_def Let_def split: if_splits)
  have n2: "\<not> (case bestModel a eUp eDown of None \<Rightarrow> False | Some m \<Rightarrow> m < minProb ?ph)"
    using assms(1-3) n1 by (simp add: decide_def Let_def split: if_splits)
  have d: "strength (decide a) = Some (strengthOf (bestEdge eUp eDown))"
          "side (decide a) = Some (bestSide eUp eDown)"
    using assms(2,3) n1 n2 by (simp_all add: decide_def Let_def)
  show ?thesis
    using d assms(4) by (simp add: strengthOf_def bestEdge_def bestSide_def)
qed

text \<open>An entry on the down side in the MID phase, with edge 0.25.\<close>

theorem decide_enter_strength_witness:
  "strength (decide \<lparr> remainingMinutes = 30, edgeUp = Some 0.05, edgeDown = Some 0.25,
      modelUp = Some 0.3, modelDown = Some 0.7 \<rparr>) = Some STRONG \<and>
   side (decide \<lparr> remainingMinutes = 30, edgeUp = Some 0.05, edgeDown = Some 0.25,
      modelUp = Some 0.3, modelDown = Some 0.7 \<rparr>) = Some DOWN"
proof -
  let ?a = "\<lparr> remainingMinutes = 30, edgeUp = Some 0.05, edgeDown = Some 0.25,
      modelUp = Some 0.3, modelDown = Some 0.7 \<rparr>"
  have h: "action (decide ?a) = ENTER"
    by (simp add: decide_def Let_def gate_defs)
  show ?thesis using decide_enter_strength [OF h, of "0.05" "0.25" "0.25"] by simp
qed

text \<open>
  Claim C6, as the code has it. With 45 minutes remaining, edges 0.18 and \<open>-0.15\<close> and model
  probabilities 0.68 and 0.32, \<open>decide\<close> returns phase \<open>EARLY\<close>, action \<open>ENTER\<close>, side \<open>UP\<close>
  and strength \<open>GOOD\<close>: the best edge 0.18 is below the 0.20 that \<open>STRONG\<close> asks for.
\<close>

theorem decide_scenario:
  "phase (decide \<lparr> remainingMinutes = 45, edgeUp = Some 0.18, edgeDown = Some (- 0.15),
      modelUp = Some 0.68, modelDown = Some 0.32 \<rparr>) = EARLY \<and>
   action (decide \<lparr> remainingMinutes = 45, edgeUp = Some 0.18, edgeDown = Some (- 0.15),
      modelUp = Some 0.68, modelDown = Some 0.32 \<rparr>) = ENTER \<and>
   side (decide \<lparr> remainingMinutes = 45, edgeUp = Some 0.18, edgeDown = Some (- 0.15),
      modelUp = Some 0.68, modelDown = Some 0.32 \<rparr>) = Some UP \<and>
   strength (decide \<lparr> remainingMinutes = 45, edgeUp = Some 0.18, edgeDown = Some (- 0.15),
      modelUp = Some 0.68, modelDown = Some 0.32 \<rparr>) = Some GOOD"
  by (simp add: decide_def Let_def gate_defs)

text \<open>Claim C6 as stated fails: the strength of that decision is not \<open>STRONG\<close>.\<close>

theorem decide_scenario_counterexample:
  "strength (decide \<lparr> remainingMinutes = 45, edgeUp = Some 0.18, edgeDown = Some (- 0.15),
      modelUp = Some 0.68, modelDown = Some 0.32 \<rparr>) \<noteq> Some STRONG"
  by (simp add: decide_def Let_def gate_defs)

text \<open>
  Claim C7. The gate is monotonic in the phase: with non-null edges, if \<open>decide\<close> returns
  \<open>ENTER\<close> for a \<open>remainingMinutes\<close> of at most 20 (LATE), it returns \<open>ENTER\<close> for the same
  edges and model probabilities at every \<open>remainingMinutes\<close> above 20, which is \<open>EARLY\<close>
  above 40 and \<open>MID\<close> up to 40.
\<close>

theorem decide_monotonic_in_phase:
  assumes "decide_args.edgeUp a \<noteq> None" and "decide_args.edgeDown a \<noteq> None"
    and "remainingMinutes a \<le> 20"
    and "action (decide a) = ENTER"
    and "r > 20"
  shows "action (decide (a\<lparr>remainingMinutes := r\<rparr>)) = ENTER \<and>
         phase (decide (a\<lparr>remainingMinutes := r\<rparr>)) = (if r > 40 then EARLY else MID)"
  using assms
  by (auto simp: decide_def Let_def gate_defs split: option.splits if_splits)

text \<open>An entry at 15 minutes that is also an entry at 30 minutes.\<close>

theorem decide_monotonic_in_phase_witness:
  "action (decide \<lparr> remainingMinutes = 15, edgeUp = Some 0.25, edgeDown = Some (- 0.2),
      modelUp = Some 0.7, modelDown = Some 0.3 \<rparr>) = ENTER \<and>
   action (decide \<lparr> remainingMinutes = 30, edgeUp = Some 0.25, edgeDown = Some (- 0.2),
      modelUp = Some 0.7, modelDown = Some 0.3 \<rparr>) = ENTER \<and>
   phase (decide \<lparr> remainingMinutes = 30, edgeUp = Some 0.25, edgeDown = Some (- 0.2),
      modelUp = Some 0.7, modelDown = Some 0.3 \<rparr>) = MID"
proof -
  let ?a = "\<lparr> remainingMinutes = 15, edgeUp = Some 0.25, edgeDown = Some (- 0.2),
      modelUp = Some 0.7, modelDown = Some 0.3 \<rparr>"
  have h: "action (decide ?a) = ENTER"
    by (simp add: decide_def Let_def gate_defs)
  have "action (decide (?a\<lparr>remainingMinutes := 30\<rparr>)) = ENTER \<and>
        phase (decide (?a\<lparr>remainingMinutes := 30\<rparr>)) = (if (30::rat) > 40 then EARLY else MID)"
    by (rule decide_monotonic_in_phase [OF _ _ _ h]) simp_all
  with h show ?thesis by simp
qed

section \<open>Properties of the order book summary\<close>

lemma foldl_add_sum_list:
  "foldl (\<lambda>acc x. acc + f x) (s::rat) xs = s + sum_list (map f xs)"
  by (induction xs arbitrary: s) simp_all

lemma toNumber_cases:
  "(case toNumber v of Some r \<Rightarrow> r | None \<Rightarrow> 0) = (case v of Num r \<Rightarrow> r | _ \<Rightarrow> 0)"
  by (cases v) (simp_all add: toNumber_def)

lemma liquidity_sum:
  assumes "0 \<le> d"
  shows "liquidity bids d =
     sum_list (map (\<lambda>x. case cell x 1 of Num r \<Rightarrow> r | _ \<Rightarrow> 0) (take (nat d) bids))"
proof -
  have "slice0 bids d = take (nat d) bids"
    using assms by (simp add: slice0_def Let_def min_def)
  then show ?thesis
    by (simp add: liquidity_def foldl_add_sum_list toNumber_cases)
qed

text \<open>
  Claim C8. In the summary of any order book, on the yes side and on the no side,
  \<open>askLiquidity\<close> equals \<open>bidLiquidity\<close>, and (for a depth that is not negative) both are the
  sum of the sizes \<open>x[1]\<close> of the first \<open>depthLevels\<close> bid entries of that side, a size that is
  not a number counting as 0. \<open>yesBids\<close> and \<open>noBids\<close> name the two sides, empty when the
  book or the side is missing; \<open>depth\<close> names \<open>depthLevels\<close> with its default 5.
\<close>

theorem summarizeOrderBook_liquidity:
  assumes "yesBids = (case book of None \<Rightarrow> []
                      | Some b \<Rightarrow> (case orderbook.yes b of None \<Rightarrow> [] | Some xs \<Rightarrow> xs))"
    and "noBids = (case book of None \<Rightarrow> []
                   | Some b \<Rightarrow> (case orderbook.no b of None \<Rightarrow> [] | Some xs \<Rightarrow> xs))"
    and "depth = (case depthLevels of None \<Rightarrow> 5 | Some d \<Rightarrow> d)"
    and "s = summarizeOrderBook book depthLevels"
  shows "askLiquidity (book_summary.yes s) = bidLiquidity (book_summary.yes s) \<and>
         askLiquidity (book_summary.no s) = bidLiquidity (book_summary.no s) \<and>
         (0 \<le> depth \<longrightarrow>
            bidLiquidity (book_summary.yes s) =
              sum_list (map (\<lambda>x. case cell x 1 of Num r \<Rightarrow> r | _ \<Rightarrow> 0) (take (nat depth) yesBids)) \<and>
            bidLiquidity (book_summary.no s) =
              sum_list (map (\<lambda>x. case cell x 1 of Num r \<Rightarrow> r | _ \<Rightarrow> 0) (take (nat depth) noBids)))"
proof -
  have y: "arrayOrEmpty (case book of None \<Rightarrow> None | Some b \<Rightarrow> orderbook.yes b) = yesBids"
    using assms(1) by (simp add: arrayOrEmpty_def split: option.splits)
  have n: "arrayOrEmpty (case book of None \<Rightarrow> None | Some b \<Rightarrow> orderbook.no b) = noBids"
    using assms(2) by (simp add: arrayOrEmpty_def split: option.splits)
  have yb: "bidLiquidity (book_summary.yes s) = liquidity yesBids depth"
    and ya: "askLiquidity (book_summary.yes s) = liquidity yesBids depth"
    and nb: "bidLiquidity (book_summary.no s) = liquidity noBids depth"
    and na: "askLiquidity (book_summary.no s) = liquidity noBids depth"
    unfolding assms(3,4) summarizeOrderBook_def Let_def y n by simp_all
  show ?thesis
    unfolding yb ya nb na by (simp add: liquidity_sum)
qed

text \<open>
  A yes side of four entries summarized to depth 3: the second entry has no size and the
  third has size \<open>null\<close>.
\<close>

theorem summarizeOrderBook_liquidity_witness:
  "askLiquidity (book_summary.yes (summarizeOrderBook
      (Some \<lparr> orderbook.yes = Some [[Num 40, Num 10], [Num 39], [Num 38, Null], [Num 37, Num 5]],
              orderbook.no = None \<rparr>) (Some 3))) = 10 \<and>
   bidLiquidity (book_summary.yes (summarizeOrderBook
      (Some \<lparr> orderbook.yes = Some [[Num 40, Num 10], [Num 39], [Num 38, Null], [Num 37, Num 5]],
              orderbook.no = None \<rparr>) (Some 3))) = 10"
  using summarizeOrderBook_liquidity [of
      "[[Num 40, Num 10], [Num 39], [Num 38, Null], [Num 37, Num 5]]"
      "Some \<lparr> orderbook.yes = Some [[Num 40, Num 10], [Num 39], [Num 38, Null], [Num 37, Num 5]],
              orderbook.no = None \<rparr>"
      "[]" 3 "Some 3"
      "summarizeOrderBook
         (Some \<lparr> orderbook.yes = Some [[Num 40, Num 10], [Num 39], [Num 38, Null], [Num 37, Num 5]],
                 orderbook.no = None \<rparr>) (Some 3)"]
  by (simp add: cell_def in_bounds_def numeral_3_eq_3)

section \<open>Properties of the VWAP crossing count\<close>

lemma crossLoop_step:
  "i < int (length closes) \<Longrightarrow>
   crossLoop closes vwapSeries i c rs =
     crossLoop closes vwapSeries (i + 1) (c + crossStep closes vwapSeries i) (rs @ readsAt i)"
  by (subst crossLoop.simps) (simp add: crossStep_def readsAt_def Let_def)

lemma crossLoop_done:
  "\<not> i < int (length closes) \<Longrightarrow> crossLoop closes vwapSeries i c rs = (c, rs)"
  by (subst crossLoop.simps) simp

lemma crossStep_le: "crossStep closes vwapSeries i \<le> 1"
  by (simp add: crossStep_def Let_def)

lemma crossLoop_count:
  "fst (crossLoop closes vwapSeries i c rs) \<le> c + nat (int (length closes) - i)"
proof (induction "nat (int (length closes) - i)" arbitrary: i c rs)
  case 0
  then have "\<not> i < int (length closes)" by simp
  then show ?case by (simp add: crossLoop_done)
next
  case (Suc k)
  then have lt: "i < int (length closes)" and k: "k = nat (int (length closes) - (i + 1))"
    by simp_all
  have "fst (crossLoop closes vwapSeries (i + 1) (c + crossStep closes vwapSeries i) (rs @ readsAt i))
          \<le> (c + crossStep closes vwapSeries i) + nat (int (length closes) - (i + 1))"
    by (rule Suc.hyps(1) [OF k])
  also have "\<dots> \<le> c + nat (int (length closes) - i)"
    using crossStep_le [of closes vwapSeries i] lt by simp
  finally show ?case by (simp add: crossLoop_step [OF lt])
qed

lemma crossLoop_reads:
  "set (snd (crossLoop closes vwapSeries i c rs)) \<subseteq>
     set rs \<union> (\<Union>j \<in> {i ..< int (length closes)}. set (readsAt j))"
proof (induction "nat (int (length closes) - i)" arbitrary: i c rs)
  case 0
  then have "\<not> i < int (length closes)" by simp
  then show ?case by (simp add: crossLoop_done)
next
  case (Suc k)
  then have lt: "i < int (length closes)" and k: "k = nat (int (length closes) - (i + 1))"
    by simp_all
  have split: "{i ..< int (length closes)} = insert i {i + 1 ..< int (length closes)}"
    using lt by auto
  have "set (snd (crossLoop closes vwapSeries (i + 1) (c + crossStep closes vwapSeries i) (rs @ readsAt i)))
          \<subseteq> set (rs @ readsAt i) \<union> (\<Union>j \<in> {i + 1 ..< int (length closes)}. set (readsAt j))"
    by (rule Suc.hyps(1) [OF k])
  also have "\<dots> = set rs \<union> (\<Union>j \<in> {i ..< int (length closes)}. set (readsAt j))"
    unfolding split by auto
  finally show ?case by (simp only: crossLoop_step [OF lt])
qed

lemma traced_reads:
  assumes "countVwapCrosses_traced closes vwapSeries lookback = Some (n, rs)" and "r \<in> set rs"
  shows "\<exists>j. int (length closes) - lookback + 1 \<le> j \<and> j < int (length closes) \<and>
             r \<in> set (readsAt j)"
proof -
  have "rs = snd (crossLoop closes vwapSeries (int (length closes) - lookback + 1) 0 [])"
    using assms(1) by (simp add: countVwapCrosses_traced_def split: if_splits)
  then have "r \<in> (\<Union>j \<in> {int (length closes) - lookback + 1 ..< int (length closes)}.
                    set (readsAt j))"
    using crossLoop_reads [of closes vwapSeries "int (length closes) - lookback + 1" 0 "[]"]
      assms(2) by auto
  then show ?thesis by auto
qed

text \<open>
  Claim C9, as the code has it. \<open>countVwapCrosses\<close> returns \<open>null\<close> whenever \<open>closes\<close> or
  \<open>vwapSeries\<close> has fewer than \<open>lookback\<close> elements. Otherwise, for \<open>lookback \<ge> 1\<close>, it returns
  an integer between 0 and \<open>lookback - 1\<close>; every index it reads in \<open>closes\<close> is within
  bounds, and every index it reads in \<open>vwapSeries\<close> is within bounds when \<open>vwapSeries\<close> is at
  least as long as \<open>closes\<close>.
\<close>

theorem countVwapCrosses_bounds:
  "(int (length closes) < lookback \<or> int (length vwapSeries) < lookback \<longrightarrow>
      countVwapCrosses closes vwapSeries lookback = None) \<and>
   (lookback \<le> int (length closes) \<and> lookback \<le> int (length vwapSeries) \<and> 1 \<le> lookback \<longrightarrow>
      (\<exists>n. countVwapCrosses closes vwapSeries lookback = Some n \<and> int n \<le> lookback - 1) \<and>
      (\<forall>n rs. countVwapCrosses_traced closes vwapSeries lookback = Some (n, rs) \<longrightarrow>
         (\<forall>r \<in> set rs. fst r = Closes \<longrightarrow> read_in_bounds closes vwapSeries r) \<and>
         (length closes \<le> length vwapSeries \<longrightarrow>
            (\<forall>r \<in> set rs. read_in_bounds closes vwapSeries r))))"
proof (intro conjI impI allI)
  assume "int (length closes) < lookback \<or> int (length vwapSeries) < lookback"
  then show "countVwapCrosses closes vwapSeries lookback = None"
    by (auto simp: countVwapCrosses_def countVwapCrosses_traced_def)
next
  assume h: "lookback \<le> int (length closes) \<and> lookback \<le> int (length vwapSeries) \<and> 1 \<le> lookback"
  let ?i = "int (length closes) - lookback + 1"
  have "countVwapCrosses closes vwapSeries lookback = Some (fst (crossLoop closes vwapSeries ?i 0 []))"
    using h by (simp add: countVwapCrosses_def countVwapCrosses_traced_def)
  moreover have "int (fst (crossLoop closes vwapSeries ?i 0 [])) \<le> lookback - 1"
  proof -
    have "nat (int (length closes) - ?i) = nat (lookback - 1)" by simp
    then have "fst (crossLoop closes vwapSeries ?i 0 []) \<le> nat (lookback - 1)"
      using crossLoop_count [of closes vwapSeries ?i 0 "[]"] by simp
    then show ?thesis using h by linarith
  qed
  ultimately show "\<exists>n. countVwapCrosses closes vwapSeries lookback = Some n \<and> int n \<le> lookback - 1"
    by blast
next
  fix n rs
  assume h: "lookback \<le> int (length closes) \<and> lookback \<le> int (length vwapSeries) \<and> 1 \<le> lookback"
    and t: "countVwapCrosses_traced closes vwapSeries lookback = Some (n, rs)"
  show "\<forall>r \<in> set rs. fst r = Closes \<longrightarrow> read_in_bounds closes vwapSeries r"
  proof (intro ballI impI)
    fix r assume r: "r \<in> set rs" "fst r = Closes"
    obtain j where j: "int (length closes) - lookback + 1 \<le> j" "j < int (length closes)"
        "r \<in> set (readsAt j)"
      using traced_reads [OF t r(1)] by blast
    then show "read_in_bounds closes vwapSeries r"
      using r(2) h by (auto simp: readsAt_def read_in_bounds_def in_bounds_def)
  qed
next
  fix n rs
  assume h: "lookback \<le> int (length closes) \<and> lookback \<le> int (length vwapSeries) \<and> 1 \<le> lookback"
    and t: "countVwapCrosses_traced closes vwapSeries lookback = Some (n, rs)"
    and l: "length closes \<le> length vwapSeries"
  show "\<forall>r \<in> set rs. read_in_bounds closes vwapSeries r"
  proof
    fix r assume r: "r \<in> set rs"
    obtain j where j: "int (length closes) - lookback + 1 \<le> j" "j < int (length closes)"
        "r \<in> set (readsAt j)"
      using traced_reads [OF t r] by blast
    then show "read_in_bounds closes vwapSeries r"
      using h l by (auto simp: readsAt_def read_in_bounds_def in_bounds_def)
  qed
qed

text \<open>Four closes against four VWAP values, with two crossings and twelve reads.\<close>

theorem countVwapCrosses_bounds_witness:
  "countVwapCrosses [Num 1, Num 2, Num 0, Num 3] [Num 0, Num 3, Num 1, Num 1] 4 = Some 2 \<and>
   countVwapCrosses_traced [Num 1, Num 2, Num 0, Num 3] [Num 0, Num 3, Num 1, Num 1] 4 =
     Some (2, [(Closes, 0), (VwapSeries, 0), (Closes, 1), (VwapSeries, 1),
               (Closes, 1), (VwapSeries, 1), (Closes, 2), (VwapSeries, 2),
               (Closes, 2), (VwapSeries, 2), (Closes, 3), (VwapSeries, 3)]) \<and>
   read_in_bounds [Num 1, Num 2, Num 0, Num 3] [Num 0, Num 3, Num 1, Num 1] (Closes, 0) \<and>
   read_in_bounds [Num 1, Num 2, Num 0, Num 3] [Num 0, Num 3, Num 1, Num 1] (VwapSeries, 3)"
proof -
  let ?c = "[Num 1, Num 2, Num 0, Num 3]" and ?v = "[Num 0, Num 3, Num 1, Num 1]"
  let ?rs = "[(Closes, 0), (VwapSeries, 0), (Closes, 1), (VwapSeries, 1),
               (Closes, 1), (VwapSeries, 1), (Closes, 2), (VwapSeries, 2),
               (Closes, 2), (VwapSeries, 2), (Closes, 3), (VwapSeries, 3)]"
  have t: "countVwapCrosses_traced ?c ?v 4 = Some (2, ?rs)"
    by (simp add: countVwapCrosses_traced_def crossLoop_step crossLoop_done crossStep_def
        readsAt_def cell_def in_bounds_def)
  have c: "countVwapCrosses ?c ?v 4 = Some 2"
    by (simp add: countVwapCrosses_def t)
  have "\<forall>r \<in> set ?rs. read_in_bounds ?c ?v r"
    using countVwapCrosses_bounds [of ?c 4 ?v] t by simp
  then have "read_in_bounds ?c ?v (Closes, 0)" and "read_in_bounds ?c ?v (VwapSeries, 3)"
    by simp_all
  with c t show ?thesis by blast
qed

text \<open>
  Claim C9 as stated fails when \<open>vwapSeries\<close> is shorter than \<open>closes\<close>: with three closes,
  two VWAP values and \<open>lookback = 2\<close> both arrays have \<open>lookback\<close> elements, and the loop
  reads \<open>vwapSeries[2]\<close>, past the end.
\<close>

theorem countVwapCrosses_short_vwap_counterexample:
  "int (length [Num 1, Num 2, Num 3]) \<ge> 2 \<and> int (length [Num 1, Num 1]) \<ge> 2 \<and>
   countVwapCrosses_traced [Num 1, Num 2, Num 3] [Num 1, Num 1] 2 =
     Some (0, [(Closes, 1), (VwapSeries, 1), (Closes, 2), (VwapSeries, 2)]) \<and>
   \<not> read_in_bounds [Num 1, Num 2, Num 3] [Num 1, Num 1] (VwapSeries, 2)"
  by (simp add: countVwapCrosses_traced_def crossLoop_step crossLoop_done crossStep_def
      readsAt_def cell_def in_bounds_def read_in_bounds_def)

section \<open>Properties of the candle transform\<close>

lemma granularityOf_valid: "granularityOf interval \<in> set validGranularities"
  by (simp add: granularityOf_def Let_def validGranularities_def)

lemma granularityOf_pos: "granularityOf interval > 0"
  using granularityOf_valid [of interval] by (auto simp: validGranularities_def)

lemma candleOf_times:
  assumes "cell row 0 = Num t"
  shows "openTime (candleOf g row) = Fin (t * 1000)"
    and "closeTime (candleOf g row) = Fin ((t + g) * 1000)"
  using assms by (simp_all add: candleOf_def)

lemma map_open_times:
  "map (\<lambda>row. cell row 0) rows = map Num ts \<Longrightarrow>
   map (\<lambda>row. openTime (candleOf g row)) rows = map (\<lambda>t. Fin (t * 1000)) ts"
proof (induction rows arbitrary: ts)
  case Nil
  then show ?case by simp
next
  case (Cons row rows)
  then show ?case by (cases ts) (auto simp: candleOf_times)
qed

lemma map_close_times:
  "map (\<lambda>row. cell row 0) rows = map Num ts \<Longrightarrow>
   map (\<lambda>row. closeTime (candleOf g row)) rows = map (\<lambda>t. Fin ((t + g) * 1000)) ts"
proof (induction rows arbitrary: ts)
  case Nil
  then show ?case by simp
next
  case (Cons row rows)
  then show ?case by (cases ts) (auto simp: candleOf_times)
qed

lemma sorted_open_times:
  assumes "sorted_wrt (\<ge>) (ts :: rat list)"
  shows "sorted_wrt js_le (rev (map (\<lambda>t. Fin (t * 1000)) ts))"
proof -
  have "sorted_wrt (\<lambda>s t. js_le (Fin (t * 1000)) (Fin (s * 1000))) ts"
    using assms by (rule sorted_wrt_mono_rel [rotated]) simp
  then show ?thesis
    by (simp add: sorted_wrt_rev sorted_wrt_map)
qed

text \<open>
  Claim C10. For a response that is \<open>ok\<close> and whose rows start with the timestamps \<open>ts\<close>,
  \<open>fetchKlines\<close> returns candles whose \<open>openTime\<close> are the timestamps times 1000 and whose
  \<open>closeTime\<close> are the timestamps plus the granularity, times 1000, in the reverse of the
  order of the response. The granularity is positive, so \<open>closeTime > openTime\<close> for every
  candle; and when the response is sorted newest first, the \<open>openTime\<close> of the returned
  series never decreases.
\<close>

theorem fetchKlines_candles:
  assumes "ok res"
    and "map (\<lambda>row. cell row 0) (bodyRows res) = map Num ts"
    and "g = granularityOf interval"
  shows "\<exists>cs. fetchKlines interval res = Inr cs \<and>
           map openTime cs = rev (map (\<lambda>t. Fin (t * 1000)) ts) \<and>
           map closeTime cs = rev (map (\<lambda>t. Fin ((t + g) * 1000)) ts) \<and>
           g > 0 \<and>
           (\<forall>c \<in> set cs. js_gt (closeTime c) (openTime c)) \<and>
           (sorted_wrt (\<ge>) ts \<longrightarrow> sorted_wrt js_le (map openTime cs))"
proof -
  let ?cs = "rev (map (candleOf g) (bodyRows res))"
  have r: "fetchKlines interval res = Inr ?cs"
    using assms(1,3) by (simp add: fetchKlines_def)
  have "map openTime ?cs = rev (map (\<lambda>row. openTime (candleOf g row)) (bodyRows res))"
    by (simp add: rev_map comp_def)
  then have o: "map openTime ?cs = rev (map (\<lambda>t. Fin (t * 1000)) ts)"
    by (simp only: map_open_times [OF assms(2)])
  have "map closeTime ?cs = rev (map (\<lambda>row. closeTime (candleOf g row)) (bodyRows res))"
    by (simp add: rev_map comp_def)
  then have c: "map closeTime ?cs = rev (map (\<lambda>t. Fin ((t + g) * 1000)) ts)"
    by (simp only: map_close_times [OF assms(2)])
  have g: "g > 0" using assms(3) granularityOf_pos by simp
  have gt: "\<forall>c \<in> set ?cs. js_gt (closeTime c) (openTime c)"
  proof
    fix c assume "c \<in> set ?cs"
    then obtain row where row: "row \<in> set (bodyRows res)" and c: "c = candleOf g row" by auto
    from row have "cell row 0 \<in> set (map (\<lambda>row. cell row 0) (bodyRows res))" by simp
    then obtain t where "cell row 0 = Num t" unfolding assms(2) by auto
    then show "js_gt (closeTime c) (openTime c)"
      using g by (simp add: c candleOf_times)
  qed
  have s: "sorted_wrt (\<ge>) ts \<longrightarrow> sorted_wrt js_le (map openTime ?cs)"
    unfolding o using sorted_open_times by blast
  show ?thesis using r o c g gt s by blast
qed

text \<open>Two five-minute rows, newest first.\<close>

theorem fetchKlines_candles_witness:
  "fetchKlines ''5m'' \<lparr> ok = True, status = 200, bodyText = [],
       bodyRows = [[Num 1700000300, Num 1, Num 4, Num 2, Num 3, Num 10],
                   [Num 1700000000, Num 1, Num 4, Num 2, Num 3, Num 10]] \<rparr>
     = Inr [\<lparr> openTime = Fin 1700000000000, open' = Some 2, high = Some 4, low = Some 1,
              close = Some 3, volume = Some 10, closeTime = Fin 1700000300000 \<rparr>,
            \<lparr> openTime = Fin 1700000300000, open' = Some 2, high = Some 4, low = Some 1,
              close = Some 3, volume = Some 10, closeTime = Fin 1700000600000 \<rparr>] \<and>
   sorted_wrt js_le [Fin 1700000000000, Fin 1700000300000]"
proof -
  let ?res = "\<lparr> ok = True, status = 200, bodyText = [],
       bodyRows = [[Num 1700000300, Num 1, Num 4, Num 2, Num 3, Num 10],
                   [Num 1700000000, Num 1, Num 4, Num 2, Num 3, Num 10]] \<rparr>"
  have g: "granularityOf ''5m'' = 300"
    by (simp add: granularityOf_def granularityMap_def validGranularities_def)
  have v: "fetchKlines ''5m'' ?res =
      Inr [\<lparr> openTime = Fin 1700000000000, open' = Some 2, high = Some 4, low = Some 1,
              close = Some 3, volume = Some 10, closeTime = Fin 1700000300000 \<rparr>,
           \<lparr> openTime = Fin 1700000300000, open' = Some 2, high = Some 4, low = Some 1,
              close = Some 3, volume = Some 10, closeTime = Fin 1700000600000 \<rparr>]"
    by (simp add: fetchKlines_def g candleOf_def cell_def in_bounds_def toNumber_def)
  have "\<exists>cs. fetchKlines ''5m'' ?res = Inr cs \<and>
           map openTime cs = rev (map (\<lambda>t. Fin (t * 1000)) [1700000300, 1700000000]) \<and>
           map closeTime cs = rev (map (\<lambda>t. Fin ((t + 300) * 1000)) [1700000300, 1700000000]) \<and>
           (300::rat) > 0 \<and>
           (\<forall>c \<in> set cs. js_gt (closeTime c) (openTime c)) \<and>
           (sorted_wrt (\<ge>) [1700000300, 1700000000 :: rat] \<longrightarrow> sorted_wrt js_le (map openTime cs))"
    by (rule fetchKlines_candles) (simp_all add: cell_def in_bounds_def g)
  then have "sorted_wrt js_le [Fin 1700000000000, Fin 1700000300000]"
    unfolding v by simp
  with v show ?thesis by blast
qed

end
